theory Spec2Isabelle
  imports Complex_Main
begin

section \<open>Data model of mtgleague/models.py\<close>

text \<open>
  The module declares SQLAlchemy model classes. Every class becomes a record of its
  columns; a relationship attribute (\<open>match.winner\<close>, \<open>stage.event\<close>) is represented by
  its foreign-key column, which is what the ORM stores. Integer primary keys are natural
  numbers, a nullable column that the constructor leaves unset has an \<open>option\<close> type with
  \<open>None\<close> for SQL NULL and for Python's \<open>None\<close>.

  A \<open>datetime.date\<close> is represented by its proleptic ordinal (\<open>date.toordinal()\<close>), on
  which the comparison of dates is the comparison of integers; a \<open>datetime.datetime\<close>
  likewise by a number. The calls \<open>date.today()\<close> and \<open>datetime.now()\<close> read the clock:
  the functions below take the value read as an argument.
\<close>

type_synonym date = int
type_synonym datetime = int

text \<open>
  Exceptions are values. \<open>AttributeError\<close> (an attribute of \<open>None\<close> is read or written)
  and \<open>ZeroDivisionError\<close> are the two exceptions that the methods modelled here can
  raise. The remaining constructors are the failure names of the specification's error
  taxonomy: the module defines no exception class of its own, and no function below
  returns one of them.
\<close>

datatype error =
    AttributeError
  | ZeroDivisionError
  | EmptyCollectionError
  | NoMatchesError
  | DuplicateMembershipError
  | MembershipNotFoundError

record user =
  user_id :: nat
  user_name :: string
  email :: string
  admin :: "bool option"
  join_date :: date

record league =
  league_id :: nat
  league_name :: string
  creator_id :: nat
  creation_date :: date

record event =
  event_id :: nat
  event_name :: string
  event_league_id :: nat

record stage =
  stage_id :: nat
  stage_event_id :: nat
  start_date :: date
  end_date :: date

record participant =
  participant_id :: nat
  participant_user_id :: nat
  participant_event_id :: nat

record match =
  match_id :: nat
  match_stage_id :: nat
  p1_id :: nat
  p2_id :: nat
  winner_id :: "nat option"
  loser_id :: "nat option"
  p1_wins :: "int option"
  p2_wins :: "int option"
  draws :: "int option"
  timestamp :: "datetime option"

record membership =
  membership_id :: nat
  membership_user_id :: nat
  membership_league_id :: nat
  moderator :: bool
  owner :: bool

text \<open>
  The database session: one list of rows per table, in the order of insertion. The
  methods of the module read the tables through queries and write them through
  \<open>db.session.commit()\<close>; here they take the database and return the one committed.
\<close>

record database =
  stage_table :: "stage list"
  match_table :: "match list"
  membership_table :: "membership list"

section \<open>Queries\<close>

text \<open>
  \<open>Query.first()\<close> returns the first row of the result, or \<open>None\<close> when the result is
  empty. \<open>Query.order_by(column)\<close> sorts the rows by a column, ascending, and
  \<open>order_by(column.desc())\<close> descending. SQL leaves the order of rows with equal keys
  open; the model keeps them in table order (a stable sort). The theorems about the
  first row of an ordered query only use that it is a row with the least (greatest) key.
\<close>

definition first :: "'a list \<Rightarrow> 'a option" where
  "first rows = (case rows of [] \<Rightarrow> None | r # _ \<Rightarrow> Some r)"

definition order_by :: "('a \<Rightarrow> int) \<Rightarrow> 'a list \<Rightarrow> 'a list" where
  "order_by column rows = sort_key column rows"

definition order_by_desc :: "('a \<Rightarrow> int) \<Rightarrow> 'a list \<Rightarrow> 'a list" where
  "order_by_desc column rows = sort_key (\<lambda>r. - column r) rows"

section \<open>Match\<close>

text \<open>\<open>Match.__init__(stage, participant1, participant2)\<close>: every other column is NULL.\<close>

definition Match_init :: "nat \<Rightarrow> stage \<Rightarrow> participant \<Rightarrow> participant \<Rightarrow> match" where
  "Match_init new_id st participant1 participant2 =
     \<lparr> match_id = new_id, match_stage_id = stage_id st,
       p1_id = participant_id participant1, p2_id = participant_id participant2,
       winner_id = None, loser_id = None,
       p1_wins = None, p2_wins = None, draws = None, timestamp = None \<rparr>"

text \<open>
  \<open>Match.add_results\<close>: the three counts and the timestamp are stored, then two
  independent \<open>if\<close> statements follow, in this order: the one for \<open>p1_wins >= 2\<close> and the
  one for \<open>p2_wins >= 2\<close>. The second is not an \<open>elif\<close>, and there is no \<open>else\<close>.
\<close>

definition add_results :: "match \<Rightarrow> int \<Rightarrow> int \<Rightarrow> int \<Rightarrow> datetime \<Rightarrow> match" where
  "add_results self p1w p2w d now =
     (let m1 = self\<lparr> p1_wins := Some p1w, p2_wins := Some p2w, draws := Some d,
                    timestamp := Some now \<rparr>;
          m2 = (if p1w \<ge> 2
                then m1\<lparr> winner_id := Some (p1_id m1), loser_id := Some (p2_id m1) \<rparr>
                else m1);
          m3 = (if p2w \<ge> 2
                then m2\<lparr> winner_id := Some (p2_id m2), loser_id := Some (p1_id m2) \<rparr>
                else m2)
      in m3)"

text \<open>A sequence of calls of \<open>add_results\<close> on one match, each with its arguments and the
  clock value it reads.\<close>

fun add_results_calls :: "match \<Rightarrow> (int \<times> int \<times> int \<times> datetime) list \<Rightarrow> match" where
  "add_results_calls m [] = m"
| "add_results_calls m ((p1w, p2w, d, now) # calls) =
     add_results_calls (add_results m p1w p2w d now) calls"

section \<open>Event\<close>

text \<open>\<open>event.stages\<close>: the rows of the stage table whose \<open>event_id\<close> is the event's id.\<close>

definition Event_stages :: "database \<Rightarrow> event \<Rightarrow> stage list" where
  "Event_stages db self = filter (\<lambda>s. stage_event_id s = event_id self) (stage_table db)"

text \<open>
  \<open>get_start_date\<close> reads \<open>start_date\<close> of the first stage by ascending \<open>start_date\<close>;
  \<open>get_end_date\<close> reads \<open>end_date\<close> of the first stage by descending \<open>start_date\<close>
  (the source orders by \<open>Stage.start_date.desc()\<close> here too). With no stage, \<open>first()\<close>
  is \<open>None\<close> and reading its attribute raises \<open>AttributeError\<close>.
\<close>

definition get_start_date :: "database \<Rightarrow> event \<Rightarrow> error + date" where
  "get_start_date db self =
     (case first (order_by start_date (Event_stages db self)) of
        None \<Rightarrow> Inl AttributeError
      | Some first_stage \<Rightarrow> Inr (start_date first_stage))"

definition get_end_date :: "database \<Rightarrow> event \<Rightarrow> error + date" where
  "get_end_date db self =
     (case first (order_by_desc start_date (Event_stages db self)) of
        None \<Rightarrow> Inl AttributeError
      | Some last_stage \<Rightarrow> Inr (end_date last_stage))"

definition is_past :: "database \<Rightarrow> event \<Rightarrow> date \<Rightarrow> error + bool" where
  "is_past db self today =
     (case first (order_by_desc start_date (Event_stages db self)) of
        None \<Rightarrow> Inl AttributeError
      | Some last_stage \<Rightarrow> Inr (end_date last_stage \<le> today))"

definition in_progress :: "database \<Rightarrow> event \<Rightarrow> date \<Rightarrow> error + bool" where
  "in_progress db self today =
     (let first_stage = first (order_by start_date (Event_stages db self));
          last_stage = first (order_by_desc start_date (Event_stages db self))
      in case first_stage of
           None \<Rightarrow> Inl AttributeError
         | Some f \<Rightarrow>
             (case last_stage of
                None \<Rightarrow> Inl AttributeError
              | Some l \<Rightarrow> Inr (start_date f \<le> today \<and> today \<le> end_date l)))"

definition is_upcoming :: "database \<Rightarrow> event \<Rightarrow> date \<Rightarrow> error + bool" where
  "is_upcoming db self today =
     (case first (order_by start_date (Event_stages db self)) of
        None \<Rightarrow> Inl AttributeError
      | Some first_stage \<Rightarrow> Inr (today \<le> start_date first_stage))"

section \<open>Membership and League\<close>

text \<open>\<open>Membership.__init__(user, league, moderator=False, owner=False)\<close>; the primary key
  is assigned when the row is inserted.\<close>

definition Membership_init :: "nat \<Rightarrow> user \<Rightarrow> league \<Rightarrow> bool \<Rightarrow> bool \<Rightarrow> membership" where
  "Membership_init new_id u l is_moderator is_owner =
     \<lparr> membership_id = new_id, membership_user_id = user_id u,
       membership_league_id = league_id l, moderator = is_moderator, owner = is_owner \<rparr>"

definition next_membership_id :: "database \<Rightarrow> nat" where
  "next_membership_id db = Suc (fold max (map membership_id (membership_table db)) 0)"

text \<open>
  \<open>League.add_member\<close>: a membership is built with the default flags, added to the
  session and committed. The method makes no query before the insertion and the table
  has no uniqueness constraint on (user, league), so the call always succeeds.
\<close>

definition add_member :: "database \<Rightarrow> league \<Rightarrow> user \<Rightarrow> error + database" where
  "add_member db self u =
     (let membership = Membership_init (next_membership_id db) u self False False
      in Inr (db\<lparr> membership_table := membership_table db @ [membership] \<rparr>))"

text \<open>The query of \<open>add_moderator\<close> and \<open>add_owner\<close>:
  \<open>Membership.query.filter(and_(Membership.league_id == self.id, Membership.user == user))\<close>.\<close>

definition membership_of :: "league \<Rightarrow> user \<Rightarrow> membership \<Rightarrow> bool" where
  "membership_of l u m \<longleftrightarrow> membership_league_id m = league_id l \<and> membership_user_id m = user_id u"

definition find_membership :: "database \<Rightarrow> league \<Rightarrow> user \<Rightarrow> membership option" where
  "find_membership db l u = first (filter (membership_of l u) (membership_table db))"

text \<open>Writing attributes of the row object that a query returned, then committing: the
  first row of the table that satisfies the query's condition is replaced.\<close>

fun update_first :: "('a \<Rightarrow> bool) \<Rightarrow> ('a \<Rightarrow> 'a) \<Rightarrow> 'a list \<Rightarrow> 'a list" where
  "update_first P f [] = []"
| "update_first P f (r # rows) = (if P r then f r # rows else r # update_first P f rows)"

definition add_moderator :: "database \<Rightarrow> league \<Rightarrow> user \<Rightarrow> error + database" where
  "add_moderator db self u =
     (case find_membership db self u of
        None \<Rightarrow> Inl AttributeError
      | Some membership \<Rightarrow>
          Inr (db\<lparr> membership_table :=
                 update_first (membership_of self u)
                   (\<lambda>m. m\<lparr> moderator := True, owner := False \<rparr>) (membership_table db) \<rparr>))"

definition add_owner :: "database \<Rightarrow> league \<Rightarrow> user \<Rightarrow> error + database" where
  "add_owner db self u =
     (case find_membership db self u of
        None \<Rightarrow> Inl AttributeError
      | Some membership \<Rightarrow>
          Inr (db\<lparr> membership_table :=
                 update_first (membership_of self u)
                   (\<lambda>m. m\<lparr> moderator := False, owner := True \<rparr>) (membership_table db) \<rparr>))"

text \<open>No membership carries both role flags.\<close>

definition roles_exclusive :: "database \<Rightarrow> bool" where
  "roles_exclusive db = list_all (\<lambda>m. \<not> (moderator m \<and> owner m)) (membership_table db)"

section \<open>Participant\<close>

definition get_matches :: "database \<Rightarrow> participant \<Rightarrow> match list" where
  "get_matches db self =
     filter (\<lambda>m. p1_id m = participant_id self \<or> p2_id m = participant_id self) (match_table db)"

definition get_matches_count :: "database \<Rightarrow> participant \<Rightarrow> nat" where
  "get_matches_count db self =
     length (filter (\<lambda>m. p1_id m = participant_id self \<or> p2_id m = participant_id self)
       (match_table db))"

definition get_matches_won :: "database \<Rightarrow> participant \<Rightarrow> match list" where
  "get_matches_won db self =
     filter (\<lambda>m. winner_id m = Some (participant_id self)) (match_table db)"

definition get_matches_won_count :: "database \<Rightarrow> participant \<Rightarrow> nat" where
  "get_matches_won_count db self =
     length (filter (\<lambda>m. winner_id m = Some (participant_id self)) (match_table db))"

definition get_matches_lost :: "database \<Rightarrow> participant \<Rightarrow> match list" where
  "get_matches_lost db self =
     filter (\<lambda>m. loser_id m = Some (participant_id self)) (match_table db)"

definition get_matches_lost_count :: "database \<Rightarrow> participant \<Rightarrow> nat" where
  "get_matches_lost_count db self =
     length (filter (\<lambda>m. loser_id m = Some (participant_id self)) (match_table db))"

text \<open>
  \<open>match_win_percentage\<close> returns \<open>matches_won / matches_total\<close>, in Python 3 the true
  division of two integers, which raises \<open>ZeroDivisionError\<close> for a zero divisor. The quotient is
  modelled as the exact rational; Python rounds it to the nearest double, which keeps
  the bounds 0 and 1.
\<close>

definition match_win_percentage :: "database \<Rightarrow> participant \<Rightarrow> error + rat" where
  "match_win_percentage db self =
     (let matches_won = get_matches_won_count db self;
          matches_total = get_matches_count db self
      in if matches_total = 0 then Inl ZeroDivisionError
         else Inr (of_nat matches_won / of_nat matches_total))"

text \<open>
  The condition on a stored match that the specification requires: the two participants
  are distinct, and the winner and the loser, when set, are the two participants of the
  match (each one of them, and not the same one).
\<close>

definition winner_is_participant :: "match \<Rightarrow> bool" where
  "winner_is_participant m =
     (case winner_id m of None \<Rightarrow> True | Some w \<Rightarrow> w = p1_id m \<or> w = p2_id m)"

definition loser_is_participant :: "match \<Rightarrow> bool" where
  "loser_is_participant m =
     (case loser_id m of None \<Rightarrow> True | Some l \<Rightarrow> l = p1_id m \<or> l = p2_id m)"

definition match_wf :: "match \<Rightarrow> bool" where
  "match_wf m \<longleftrightarrow>
     p1_id m \<noteq> p2_id m \<and> winner_is_participant m \<and> loser_is_participant m \<and>
     (winner_id m = None \<or> winner_id m \<noteq> loser_id m)"

section \<open>User and AnonymousUser\<close>

text \<open>
  The current actor is an instance of \<open>User\<close> or of \<open>AnonymousUser\<close>; both classes
  define \<open>is_admin\<close>, \<open>is_anonymous\<close> and \<open>is_member\<close>. \<open>User.is_admin\<close> returns the
  nullable column \<open>admin\<close> as it is.
\<close>

datatype actor = User user | AnonymousUser

fun is_admin :: "actor \<Rightarrow> bool option" where
  "is_admin (User self) = admin self"
| "is_admin AnonymousUser = Some False"

fun is_anonymous :: "actor \<Rightarrow> bool" where
  "is_anonymous (User self) = False"
| "is_anonymous AnonymousUser = True"

fun is_member :: "database \<Rightarrow> actor \<Rightarrow> league \<Rightarrow> bool" where
  "is_member db (User self) l =
     (let leagues = map membership_league_id
            (filter (\<lambda>m. membership_user_id m = user_id self) (membership_table db))
      in league_id l \<in> set leagues)"
| "is_member db AnonymousUser l = False"

section \<open>Example data\<close>

text \<open>Concrete rows used in the examples below.\<close>

definition alice :: participant where
  "alice = \<lparr> participant_id = 1, participant_user_id = 11, participant_event_id = 1 \<rparr>"

definition bob :: participant where
  "bob = \<lparr> participant_id = 2, participant_user_id = 12, participant_event_id = 1 \<rparr>"

definition carol :: participant where
  "carol = \<lparr> participant_id = 3, participant_user_id = 13, participant_event_id = 1 \<rparr>"

definition opening_stage :: stage where
  "opening_stage = \<lparr> stage_id = 1, stage_event_id = 1, start_date = 1, end_date = 10 \<rparr>"

definition fresh_match :: match where
  "fresh_match = Match_init 1 opening_stage alice bob"

definition closing_stage :: stage where
  "closing_stage = \<lparr> stage_id = 2, stage_event_id = 1, start_date = 11, end_date = 20 \<rparr>"

definition side_stage :: stage where
  "side_stage = \<lparr> stage_id = 3, stage_event_id = 1, start_date = 2, end_date = 5 \<rparr>"

definition season :: event where
  "season = \<lparr> event_id = 1, event_name = ''Season'', event_league_id = 1 \<rparr>"

definition offseason :: event where
  "offseason = \<lparr> event_id = 2, event_name = ''Offseason'', event_league_id = 1 \<rparr>"

definition sequential_db :: database where
  "sequential_db = \<lparr> stage_table = [opening_stage, closing_stage], match_table = [],
     membership_table = [] \<rparr>"

definition overlapping_db :: database where
  "overlapping_db = \<lparr> stage_table = [opening_stage, side_stage], match_table = [],
     membership_table = [] \<rparr>"

definition dave :: participant where
  "dave = \<lparr> participant_id = 4, participant_user_id = 14, participant_event_id = 1 \<rparr>"

definition league_night_db :: database where
  "league_night_db =
     \<lparr> stage_table = [opening_stage],
       match_table =
         [add_results (Match_init 1 opening_stage alice bob) 2 0 0 100,
          add_results (Match_init 2 opening_stage alice carol) 1 1 0 110,
          add_results (Match_init 3 opening_stage bob carol) 0 2 1 120],
       membership_table = [] \<rparr>"

definition guild :: league where
  "guild = \<lparr> league_id = 1, league_name = ''Guild'', creator_id = 11, creation_date = 0 \<rparr>"

definition erin :: user where
  "erin = \<lparr> user_id = 15, user_name = ''erin'', email = ''erin@example.org'',
            admin = None, join_date = 0 \<rparr>"

definition guild_db :: database where
  "guild_db =
     \<lparr> stage_table = [], match_table = [],
       membership_table = [Membership_init 1 erin guild False False] \<rparr>"

definition empty_db :: database where
  "empty_db = \<lparr> stage_table = [], match_table = [], membership_table = [] \<rparr>"

definition guild_owned_db :: database where
  "guild_owned_db =
     \<lparr> stage_table = [], match_table = [],
       membership_table = [Membership_init 1 erin guild False True] \<rparr>"

section \<open>Results of a match\<close>

lemma add_results_p2_decides:
  "2 \<le> p2w \<Longrightarrow>
     winner_id (add_results m p1w p2w d now) = Some (p2_id m) \<and>
     loser_id (add_results m p1w p2w d now) = Some (p1_id m)"
  by (simp add: add_results_def Let_def)

lemma add_results_p1_decides:
  "2 \<le> p1w \<Longrightarrow> p2w < 2 \<Longrightarrow>
     winner_id (add_results m p1w p2w d now) = Some (p1_id m) \<and>
     loser_id (add_results m p1w p2w d now) = Some (p2_id m)"
  by (simp add: add_results_def Let_def)

lemma add_results_below_threshold:
  "p1w < 2 \<Longrightarrow> p2w < 2 \<Longrightarrow>
     winner_id (add_results m p1w p2w d now) = winner_id m \<and>
     loser_id (add_results m p1w p2w d now) = loser_id m"
  by (simp add: add_results_def Let_def)

lemma add_results_winner_None_iff:
  "winner_id (add_results m p1w p2w d now) = None \<longleftrightarrow>
     winner_id m = None \<and> p1w < 2 \<and> p2w < 2"
  by (auto simp: add_results_def Let_def)

lemma add_results_calls_winner_None_iff:
  "winner_id (add_results_calls m calls) = None \<longleftrightarrow>
     winner_id m = None \<and> (\<forall>c \<in> set calls. fst c < 2 \<and> fst (snd c) < 2)"
proof (induction calls arbitrary: m)
  case Nil
  show ?case by simp
next
  case (Cons c calls)
  obtain p1w p2w d now where c: "c = (p1w, p2w, d, now)"
    by (cases c) auto
  show ?case
    unfolding c using Cons.IH [of "add_results m p1w p2w d now"]
    by (auto simp: add_results_winner_None_iff)
qed

text \<open>
  Claim C1, as the code has it. When both \<open>p1_wins >= 2\<close> and \<open>p2_wins >= 2\<close> hold, the
  first \<open>if\<close> sets participant 1 as the winner and the second \<open>if\<close>, which runs whatever
  the first did, overwrites that: after the call the winner is participant 2 and the
  loser is participant 1.
\<close>

theorem add_results_both_thresholds:
  "2 \<le> p1w \<Longrightarrow> 2 \<le> p2w \<Longrightarrow>
     winner_id (add_results m p1w p2w d now) = Some (p2_id m) \<and>
     loser_id (add_results m p1w p2w d now) = Some (p1_id m)"
  by (simp add: add_results_def Let_def)

theorem add_results_both_thresholds_witness:
  "(2::int) \<le> 2 \<and> (2::int) \<le> 3 \<and>
   winner_id (add_results fresh_match 2 3 0 100) = Some 2 \<and>
   loser_id (add_results fresh_match 2 3 0 100) = Some 1"
  using add_results_both_thresholds [of 2 3 fresh_match 0 100]
  by (simp add: fresh_match_def Match_init_def alice_def bob_def opening_stage_def)

text \<open>
  Claim C1 as stated (participant 1 preferred) fails: on a new match between
  participants 1 and 2, the call \<open>add_results(2, 2, 0)\<close> leaves participant 2 as the
  winner and participant 1 as the loser.
\<close>

theorem add_results_p1_not_preferred:
  "winner_id (add_results fresh_match 2 2 0 100) \<noteq> Some (p1_id fresh_match) \<and>
   loser_id (add_results fresh_match 2 2 0 100) \<noteq> Some (p2_id fresh_match) \<and>
   winner_id (add_results fresh_match 2 2 0 100) = Some (p2_id fresh_match)"
  by (simp add: add_results_def Let_def fresh_match_def Match_init_def alice_def bob_def
      opening_stage_def)

text \<open>
  Claim C2, as the code has it. A call with \<open>p1_wins < 2\<close> and \<open>p2_wins < 2\<close> assigns
  neither \<open>winner\<close> nor \<open>loser\<close>: both keep the value they had before the call, so an
  unplayed match stays unplayed and a resolved match stays resolved. After a sequence
  of calls on a new match, the winner is set if and only if some call of the sequence
  had \<open>p1_wins >= 2\<close> or \<open>p2_wins >= 2\<close>.
\<close>

theorem add_results_keeps_winner_below_threshold:
  "(p1w < 2 \<and> p2w < 2 \<longrightarrow>
      winner_id (add_results m p1w p2w d now) = winner_id m \<and>
      loser_id (add_results m p1w p2w d now) = loser_id m) \<and>
   (winner_id (add_results_calls (Match_init i st q1 q2) calls) \<noteq> None \<longleftrightarrow>
      (\<exists>c \<in> set calls. 2 \<le> fst c \<or> 2 \<le> fst (snd c)))"
proof
  show "p1w < 2 \<and> p2w < 2 \<longrightarrow>
      winner_id (add_results m p1w p2w d now) = winner_id m \<and>
      loser_id (add_results m p1w p2w d now) = loser_id m"
    using add_results_below_threshold [of p1w p2w m d now] by blast
next
  have "winner_id (Match_init i st q1 q2) = None"
    by (simp add: Match_init_def)
  then have "winner_id (add_results_calls (Match_init i st q1 q2) calls) = None \<longleftrightarrow>
      (\<forall>c \<in> set calls. fst c < 2 \<and> fst (snd c) < 2)"
    by (simp add: add_results_calls_winner_None_iff)
  moreover have "(\<forall>c \<in> set calls. fst c < 2 \<and> fst (snd c) < 2) \<longleftrightarrow>
      \<not> (\<exists>c \<in> set calls. 2 \<le> fst c \<or> 2 \<le> fst (snd c))"
    by (simp add: not_le)
  ultimately show "winner_id (add_results_calls (Match_init i st q1 q2) calls) \<noteq> None \<longleftrightarrow>
      (\<exists>c \<in> set calls. 2 \<le> fst c \<or> 2 \<le> fst (snd c))"
    by simp
qed

theorem add_results_keeps_winner_below_threshold_witness:
  "(1::int) < 2 \<and>
   winner_id (add_results (add_results fresh_match 2 0 0 100) 1 1 0 200) =
     winner_id (add_results fresh_match 2 0 0 100) \<and>
   loser_id (add_results (add_results fresh_match 2 0 0 100) 1 1 0 200) =
     loser_id (add_results fresh_match 2 0 0 100) \<and>
   winner_id (add_results_calls (Match_init 1 opening_stage alice bob)
     [(1, 1, 0, 100), (0, 2, 1, 200), (1, 0, 0, 300)]) \<noteq> None"
  using add_results_keeps_winner_below_threshold
    [of 1 1 "add_results fresh_match 2 0 0 100" 0 200 1 opening_stage alice bob
      "[(1, 1, 0, 100), (0, 2, 1, 200), (1, 0, 0, 300)]"]
  by simp

text \<open>
  Claim C2 as stated fails: a match resolved by \<open>add_results(2, 0, 0)\<close> and then given
  \<open>add_results(1, 1, 0)\<close> stores the counts 1 and 1 and still has participant 1 as its
  winner and participant 2 as its loser.
\<close>

theorem add_results_does_not_revert:
  "winner_id (add_results (add_results fresh_match 2 0 0 100) 1 1 0 200) = Some 1 \<and>
   loser_id (add_results (add_results fresh_match 2 0 0 100) 1 1 0 200) = Some 2 \<and>
   p1_wins (add_results (add_results fresh_match 2 0 0 100) 1 1 0 200) = Some 1 \<and>
   p2_wins (add_results (add_results fresh_match 2 0 0 100) 1 1 0 200) = Some 1"
  by (simp add: add_results_def Let_def fresh_match_def Match_init_def alice_def bob_def
      opening_stage_def)

section \<open>Ordered queries\<close>

lemma first_sort_key:
  assumes "rows \<noteq> []"
  shows "\<exists>r \<in> set rows. first (sort_key k rows) = Some r \<and> (\<forall>x \<in> set rows. k r \<le> k x)"
proof -
  have "length (sort_key k rows) = length rows" by simp
  with assms obtain y ys where ys: "sort_key k rows = y # ys"
    by (cases "sort_key k rows") auto
  have "sorted (map k (sort_key k rows))" by (rule sorted_sort_key)
  with ys have le: "\<forall>x \<in> set (y # ys). k y \<le> k x" by auto
  have "set (y # ys) = set rows" using ys set_sort [of k rows] by simp
  with le ys show ?thesis by (auto simp: first_def)
qed

lemma first_order_by:
  "rows \<noteq> [] \<Longrightarrow>
     \<exists>r \<in> set rows. first (order_by k rows) = Some r \<and> (\<forall>x \<in> set rows. k r \<le> k x)"
  unfolding order_by_def by (rule first_sort_key)

lemma first_order_by_desc:
  assumes "rows \<noteq> []"
  shows "\<exists>r \<in> set rows. first (order_by_desc k rows) = Some r \<and> (\<forall>x \<in> set rows. k x \<le> k r)"
  using first_sort_key [OF assms, of "\<lambda>r. - k r"] unfolding order_by_desc_def by simp

lemma first_empty: "first [] = None"
  by (simp add: first_def)

lemma order_by_empty: "order_by k [] = []" "order_by_desc k [] = []"
  by (simp_all add: order_by_def order_by_desc_def)

lemmas event_queries = Event_stages_def first_def order_by_def order_by_desc_def

section \<open>Dates of an event\<close>

lemmas stage_examples = opening_stage_def closing_stage_def side_stage_def season_def
  offseason_def sequential_db_def overlapping_db_def

lemma first_stage_least:
  assumes "Event_stages db ev \<noteq> []"
  shows "\<exists>f \<in> set (Event_stages db ev).
           first (order_by start_date (Event_stages db ev)) = Some f \<and>
           (\<forall>s \<in> set (Event_stages db ev). start_date f \<le> start_date s)"
  using first_order_by [OF assms] .

lemma last_stage_greatest:
  assumes "Event_stages db ev \<noteq> []"
  shows "\<exists>l \<in> set (Event_stages db ev).
           first (order_by_desc start_date (Event_stages db ev)) = Some l \<and>
           (\<forall>s \<in> set (Event_stages db ev). start_date s \<le> start_date l)"
  using first_order_by_desc [OF assms] .

lemma get_start_date_Min:
  assumes "Event_stages db ev \<noteq> []"
  shows "get_start_date db ev = Inr (Min (start_date ` set (Event_stages db ev)))"
proof -
  from first_stage_least [OF assms] obtain f where
    f: "f \<in> set (Event_stages db ev)"
       "first (order_by start_date (Event_stages db ev)) = Some f"
       "\<forall>s \<in> set (Event_stages db ev). start_date f \<le> start_date s"
    by blast
  have "Min (start_date ` set (Event_stages db ev)) = start_date f"
    using f(1,3) by (intro Min_eqI) auto
  with f(2) show ?thesis by (simp add: get_start_date_def)
qed

lemma get_end_date_last_started:
  assumes "Event_stages db ev \<noteq> []"
  shows "\<exists>l \<in> set (Event_stages db ev).
           get_end_date db ev = Inr (end_date l) \<and>
           start_date l = Max (start_date ` set (Event_stages db ev))"
proof -
  from last_stage_greatest [OF assms] obtain l where
    l: "l \<in> set (Event_stages db ev)"
       "first (order_by_desc start_date (Event_stages db ev)) = Some l"
       "\<forall>s \<in> set (Event_stages db ev). start_date s \<le> start_date l"
    by blast
  have "Max (start_date ` set (Event_stages db ev)) = start_date l"
    using l(1,3) by (intro Max_eqI) auto
  with l(1,2) show ?thesis by (auto simp: get_end_date_def)
qed

lemma get_end_date_Max:
  assumes ne: "Event_stages db ev \<noteq> []"
    and mono: "\<forall>s \<in> set (Event_stages db ev). \<forall>t \<in> set (Event_stages db ev).
                 start_date s \<le> start_date t \<longrightarrow> end_date s \<le> end_date t"
  shows "get_end_date db ev = Inr (Max (end_date ` set (Event_stages db ev)))"
proof -
  from last_stage_greatest [OF ne] obtain l where
    l: "l \<in> set (Event_stages db ev)"
       "first (order_by_desc start_date (Event_stages db ev)) = Some l"
       "\<forall>s \<in> set (Event_stages db ev). start_date s \<le> start_date l"
    by blast
  have "\<forall>s \<in> set (Event_stages db ev). end_date s \<le> end_date l"
    using l(1,3) mono by blast
  then have "Max (end_date ` set (Event_stages db ev)) = end_date l"
    using l(1) by (intro Max_eqI) auto
  with l(2) show ?thesis by (simp add: get_end_date_def)
qed

text \<open>
  Claim C3, as the code has it. For an event with at least one stage, \<open>get_start_date\<close>
  returns the minimum \<open>start_date\<close> of its stages. \<open>get_end_date\<close> returns the
  \<open>end_date\<close> of a stage whose \<open>start_date\<close> is the maximum one (the stage that starts
  last); this is the maximum \<open>end_date\<close> whenever a stage that starts no later than
  another also ends no later than it, as stages that follow one another do.
\<close>

theorem event_date_range:
  assumes "Event_stages db ev \<noteq> []"
  shows "get_start_date db ev = Inr (Min (start_date ` set (Event_stages db ev))) \<and>
         (\<exists>l \<in> set (Event_stages db ev).
            get_end_date db ev = Inr (end_date l) \<and>
            start_date l = Max (start_date ` set (Event_stages db ev))) \<and>
         ((\<forall>s \<in> set (Event_stages db ev). \<forall>t \<in> set (Event_stages db ev).
             start_date s \<le> start_date t \<longrightarrow> end_date s \<le> end_date t) \<longrightarrow>
          get_end_date db ev = Inr (Max (end_date ` set (Event_stages db ev))))"
  using get_start_date_Min [OF assms] get_end_date_last_started [OF assms]
    get_end_date_Max [OF assms] by blast

lemma sequential_stages: "Event_stages sequential_db season = [opening_stage, closing_stage]"
  by (simp add: Event_stages_def stage_examples)

lemma overlapping_stages: "Event_stages overlapping_db season = [opening_stage, side_stage]"
  by (simp add: Event_stages_def stage_examples)

theorem event_date_range_witness:
  "Event_stages sequential_db season \<noteq> [] \<and>
   get_start_date sequential_db season = Inr 1 \<and>
   get_end_date sequential_db season = Inr 20 \<and>
   Min (start_date ` set (Event_stages sequential_db season)) = 1 \<and>
   Max (end_date ` set (Event_stages sequential_db season)) = 20"
  using event_date_range [of sequential_db season]
  by (simp add: sequential_stages opening_stage_def closing_stage_def)

text \<open>
  Claim C3 as stated fails for overlapping stages: with a stage from day 1 to day 10
  and a stage from day 2 to day 5, \<open>get_end_date\<close> returns 5 (the end of the stage that
  starts last), while the maximum \<open>end_date\<close> is 10.
\<close>

theorem get_end_date_not_max:
  "get_end_date overlapping_db season = Inr 5 \<and>
   Max (end_date ` set (Event_stages overlapping_db season)) = 10"
  by (simp add: get_end_date_def overlapping_stages first_def order_by_desc_def
      opening_stage_def side_stage_def)

text \<open>
  Claim C5, as the code has it. For an event with no stage, \<open>get_start_date\<close> and
  \<open>get_end_date\<close> both fail, with the \<open>AttributeError\<close> that reading an attribute of
  the \<open>None\<close> returned by \<open>first()\<close> raises.
\<close>

theorem no_stages_AttributeError:
  assumes "Event_stages db ev = []"
  shows "get_start_date db ev = Inl AttributeError \<and> get_end_date db ev = Inl AttributeError"
  using assms by (simp add: get_start_date_def get_end_date_def first_def order_by_def
      order_by_desc_def)

theorem no_stages_AttributeError_witness:
  "Event_stages sequential_db offseason = [] \<and>
   get_start_date sequential_db offseason = Inl AttributeError \<and>
   get_end_date sequential_db offseason = Inl AttributeError"
proof -
  have h: "Event_stages sequential_db offseason = []"
    by (simp add: Event_stages_def stage_examples)
  show ?thesis using h no_stages_AttributeError [OF h] by simp
qed

text \<open>
  Claim C5 as stated fails: on an event without stages the failure of \<open>get_start_date\<close>
  and of \<open>get_end_date\<close> is not \<open>EmptyCollectionError\<close>.
\<close>

theorem no_stages_not_EmptyCollectionError:
  "get_start_date sequential_db offseason \<noteq> Inl EmptyCollectionError \<and>
   get_end_date sequential_db offseason \<noteq> Inl EmptyCollectionError \<and>
   get_start_date sequential_db offseason = Inl AttributeError"
  by (simp add: get_start_date_def get_end_date_def event_queries stage_examples)

lemma event_dates_cases:
  assumes ne: "Event_stages db ev \<noteq> []"
    and wf: "\<forall>s \<in> set (Event_stages db ev). start_date s \<le> end_date s"
  shows "\<exists>S E. S \<le> E \<and>
           get_start_date db ev = Inr S \<and> get_end_date db ev = Inr E \<and>
           is_past db ev today = Inr (E \<le> today) \<and>
           is_upcoming db ev today = Inr (today \<le> S) \<and>
           in_progress db ev today = Inr (S \<le> today \<and> today \<le> E)"
proof -
  from first_stage_least [OF ne] obtain f where
    f: "f \<in> set (Event_stages db ev)"
       "first (order_by start_date (Event_stages db ev)) = Some f"
       "\<forall>s \<in> set (Event_stages db ev). start_date f \<le> start_date s"
    by blast
  from last_stage_greatest [OF ne] obtain l where
    l: "l \<in> set (Event_stages db ev)"
       "first (order_by_desc start_date (Event_stages db ev)) = Some l"
    by blast
  have "start_date f \<le> start_date l" using f(3) l(1) by blast
  moreover have "start_date l \<le> end_date l" using wf l(1) by blast
  ultimately have "start_date f \<le> end_date l" by simp
  then show ?thesis
    using f(2) l(2)
    by (simp add: get_start_date_def get_end_date_def is_past_def is_upcoming_def
        in_progress_def)
qed

lemma event_state_by_returned_dates:
  assumes ne: "Event_stages db ev \<noteq> []"
    and wf: "\<forall>s \<in> set (Event_stages db ev). start_date s \<le> end_date s"
  shows "(get_start_date db ev \<noteq> Inr today \<and> get_end_date db ev \<noteq> Inr today \<longrightarrow>
            (is_past db ev today = Inr True \<and> is_upcoming db ev today = Inr False \<and>
               in_progress db ev today = Inr False) \<or>
            (is_past db ev today = Inr False \<and> is_upcoming db ev today = Inr True \<and>
               in_progress db ev today = Inr False) \<or>
            (is_past db ev today = Inr False \<and> is_upcoming db ev today = Inr False \<and>
               in_progress db ev today = Inr True)) \<and>
         (get_end_date db ev = Inr today \<longrightarrow>
            in_progress db ev today = Inr True \<and> is_past db ev today = Inr True)"
proof -
  from event_dates_cases [OF ne wf, of today] obtain S E where
    SE: "S \<le> E" "get_start_date db ev = Inr S" "get_end_date db ev = Inr E"
        "is_past db ev today = Inr (E \<le> today)"
        "is_upcoming db ev today = Inr (today \<le> S)"
        "in_progress db ev today = Inr (S \<le> today \<and> today \<le> E)"
    by blast
  consider "today < S" | "today = S" | "S < today" "today < E" | "today = E" | "E < today"
    by linarith
  then show ?thesis
  proof cases
    case 1
    with SE show ?thesis by simp
  next
    case 2
    with SE show ?thesis by simp
  next
    case 3
    with SE show ?thesis by simp
  next
    case 4
    with SE show ?thesis by simp
  next
    case 5
    with SE show ?thesis by simp
  qed
qed

text \<open>
  Claim C8, as the code has it. For an event with at least one stage, every stage with
  \<open>start_date \<le> end_date\<close>: when \<open>today\<close> is neither the date \<open>get_start_date\<close> returns
  (the minimum \<open>start_date\<close>) nor the date \<open>get_end_date\<close> returns (the \<open>end_date\<close> of
  the stage that starts last), exactly one of \<open>is_past\<close>, \<open>is_upcoming\<close>,
  \<open>in_progress\<close> is true, and when \<open>get_end_date\<close> returns \<open>today\<close>, \<open>in_progress\<close> and
  \<open>is_past\<close> are both true. When a stage that starts no later than another also ends
  no later than it, the two dates are the event's range, the minimum \<open>start_date\<close> and
  the maximum \<open>end_date\<close>: then exactly one of the three is true when \<open>today\<close> is neither
  of them, and on the day of the maximum \<open>end_date\<close> both \<open>in_progress\<close> and \<open>is_past\<close>
  are true.
\<close>

theorem event_state_exclusive:
  assumes ne: "Event_stages db ev \<noteq> []"
    and wf: "\<forall>s \<in> set (Event_stages db ev). start_date s \<le> end_date s"
  shows "(get_start_date db ev \<noteq> Inr today \<and> get_end_date db ev \<noteq> Inr today \<longrightarrow>
            (is_past db ev today = Inr True \<and> is_upcoming db ev today = Inr False \<and>
               in_progress db ev today = Inr False) \<or>
            (is_past db ev today = Inr False \<and> is_upcoming db ev today = Inr True \<and>
               in_progress db ev today = Inr False) \<or>
            (is_past db ev today = Inr False \<and> is_upcoming db ev today = Inr False \<and>
               in_progress db ev today = Inr True)) \<and>
         (get_end_date db ev = Inr today \<longrightarrow>
            in_progress db ev today = Inr True \<and> is_past db ev today = Inr True) \<and>
         ((\<forall>s \<in> set (Event_stages db ev). \<forall>t \<in> set (Event_stages db ev).
             start_date s \<le> start_date t \<longrightarrow> end_date s \<le> end_date t) \<longrightarrow>
          (today \<noteq> Min (start_date ` set (Event_stages db ev)) \<and>
           today \<noteq> Max (end_date ` set (Event_stages db ev)) \<longrightarrow>
             (is_past db ev today = Inr True \<and> is_upcoming db ev today = Inr False \<and>
                in_progress db ev today = Inr False) \<or>
             (is_past db ev today = Inr False \<and> is_upcoming db ev today = Inr True \<and>
                in_progress db ev today = Inr False) \<or>
             (is_past db ev today = Inr False \<and> is_upcoming db ev today = Inr False \<and>
                in_progress db ev today = Inr True)) \<and>
          (today = Max (end_date ` set (Event_stages db ev)) \<longrightarrow>
             in_progress db ev today = Inr True \<and> is_past db ev today = Inr True))"
proof -
  note returned = event_state_by_returned_dates [OF ne wf, of today]
  have range: "(today \<noteq> Min (start_date ` set (Event_stages db ev)) \<and>
           today \<noteq> Max (end_date ` set (Event_stages db ev)) \<longrightarrow>
             (is_past db ev today = Inr True \<and> is_upcoming db ev today = Inr False \<and>
                in_progress db ev today = Inr False) \<or>
             (is_past db ev today = Inr False \<and> is_upcoming db ev today = Inr True \<and>
                in_progress db ev today = Inr False) \<or>
             (is_past db ev today = Inr False \<and> is_upcoming db ev today = Inr False \<and>
                in_progress db ev today = Inr True)) \<and>
          (today = Max (end_date ` set (Event_stages db ev)) \<longrightarrow>
             in_progress db ev today = Inr True \<and> is_past db ev today = Inr True)"
    if mono: "\<forall>s \<in> set (Event_stages db ev). \<forall>t \<in> set (Event_stages db ev).
             start_date s \<le> start_date t \<longrightarrow> end_date s \<le> end_date t"
  proof -
    have s: "get_start_date db ev = Inr (Min (start_date ` set (Event_stages db ev)))"
      by (rule get_start_date_Min [OF ne])
    have e: "get_end_date db ev = Inr (Max (end_date ` set (Event_stages db ev)))"
      by (rule get_end_date_Max [OF ne mono])
    have "get_start_date db ev \<noteq> Inr today \<longleftrightarrow>
        today \<noteq> Min (start_date ` set (Event_stages db ev))"
      unfolding s by auto
    moreover have "get_end_date db ev \<noteq> Inr today \<longleftrightarrow>
        today \<noteq> Max (end_date ` set (Event_stages db ev))"
      unfolding e by auto
    moreover have "get_end_date db ev = Inr today \<longleftrightarrow>
        today = Max (end_date ` set (Event_stages db ev))"
      unfolding e by auto
    ultimately show ?thesis using returned by simp
  qed
  from returned range show ?thesis by blast
qed

theorem event_state_exclusive_witness:
  "Event_stages sequential_db season \<noteq> [] \<and>
   Min (start_date ` set (Event_stages sequential_db season)) = 1 \<and>
   Max (end_date ` set (Event_stages sequential_db season)) = 20 \<and>
   is_past sequential_db season 15 = Inr False \<and>
   is_upcoming sequential_db season 15 = Inr False \<and>
   in_progress sequential_db season 15 = Inr True \<and>
   get_end_date sequential_db season = Inr 20 \<and>
   in_progress sequential_db season 20 = Inr True \<and>
   is_past sequential_db season 20 = Inr True"
  using event_state_exclusive [of sequential_db season 15]
    event_state_exclusive [of sequential_db season 20]
  by (simp add: get_start_date_def get_end_date_def is_past_def is_upcoming_def
      in_progress_def sequential_stages first_def order_by_def order_by_desc_def
      opening_stage_def closing_stage_def)

text \<open>
  Claim C8 as stated, with the event's boundary dates the minimum \<open>start_date\<close> and the
  maximum \<open>end_date\<close> of its stages, fails for overlapping stages. With a stage from
  day 1 to day 10 and a stage from day 2 to day 5 the range is day 1 to day 10. Day 5
  is neither boundary, yet \<open>is_past\<close> and \<open>in_progress\<close> are both true on it; on day 10,
  the day the event ends, \<open>is_past\<close> is true and \<open>in_progress\<close> is false.
\<close>

theorem event_state_overlapping_stages:
  "Event_stages overlapping_db season = [opening_stage, side_stage] \<and>
   start_date opening_stage \<le> end_date opening_stage \<and>
   start_date side_stage \<le> end_date side_stage \<and>
   Min (start_date ` set (Event_stages overlapping_db season)) = 1 \<and>
   Max (end_date ` set (Event_stages overlapping_db season)) = 10 \<and>
   is_past overlapping_db season 5 = Inr True \<and>
   in_progress overlapping_db season 5 = Inr True \<and>
   is_past overlapping_db season 10 = Inr True \<and>
   in_progress overlapping_db season 10 = Inr False"
  by (simp add: is_past_def in_progress_def overlapping_stages first_def order_by_def
      order_by_desc_def opening_stage_def side_stage_def)

section \<open>Standings of a participant\<close>

lemmas match_examples = league_night_db_def add_results_def Match_init_def alice_def bob_def
  carol_def dave_def opening_stage_def Let_def

lemma filter_two_le:
  "\<forall>x \<in> set xs. (A x \<longrightarrow> C x) \<and> (B x \<longrightarrow> C x) \<and> \<not> (A x \<and> B x) \<Longrightarrow>
     length (filter A xs) + length (filter B xs) \<le> length (filter C xs)"
  by (induction xs) auto

lemma filter_le:
  "\<forall>x \<in> set xs. A x \<longrightarrow> C x \<Longrightarrow> length (filter A xs) \<le> length (filter C xs)"
  by (induction xs) auto

text \<open>A new match between two different participants satisfies \<open>match_wf\<close>, and
  \<open>add_results\<close> keeps it: the condition holds of every match the module produces.\<close>

lemma Match_init_wf:
  "participant_id q1 \<noteq> participant_id q2 \<Longrightarrow> match_wf (Match_init i st q1 q2)"
  by (simp add: match_wf_def Match_init_def winner_is_participant_def loser_is_participant_def)

lemma add_results_wf: "match_wf m \<Longrightarrow> match_wf (add_results m p1w p2w d now)"
  by (auto simp: match_wf_def add_results_def Let_def winner_is_participant_def
      loser_is_participant_def split: option.splits)

lemma add_results_winner_is_participant:
  "winner_is_participant m \<Longrightarrow> winner_is_participant (add_results m p1w p2w d now)"
  by (simp add: add_results_def Let_def winner_is_participant_def split: option.splits)

text \<open>
  Claim C7. When every stored match has two distinct participants and its winner and
  loser, when set, are those two participants (\<open>match_wf\<close>), the number of matches a
  participant has won plus the number it has lost is at most the number of its matches.
\<close>

theorem won_lost_le_count:
  assumes "\<forall>m \<in> set (match_table db). match_wf m"
  shows "get_matches_won_count db p + get_matches_lost_count db p \<le> get_matches_count db p"
  unfolding get_matches_won_count_def get_matches_lost_count_def get_matches_count_def
proof (rule filter_two_le, rule ballI)
  fix m assume "m \<in> set (match_table db)"
  with assms have "match_wf m" by blast
  then show "(winner_id m = Some (participant_id p) \<longrightarrow>
        p1_id m = participant_id p \<or> p2_id m = participant_id p) \<and>
      (loser_id m = Some (participant_id p) \<longrightarrow>
        p1_id m = participant_id p \<or> p2_id m = participant_id p) \<and>
      \<not> (winner_id m = Some (participant_id p) \<and> loser_id m = Some (participant_id p))"
    by (auto simp: match_wf_def winner_is_participant_def loser_is_participant_def)
qed

lemma league_night_wf: "\<forall>m \<in> set (match_table league_night_db). match_wf m"
  by (simp add: league_night_db_def add_results_wf Match_init_wf alice_def bob_def carol_def)

theorem won_lost_le_count_witness:
  "list_all match_wf (match_table league_night_db) \<and>
   get_matches_won_count league_night_db carol = 1 \<and>
   get_matches_lost_count league_night_db carol = 0 \<and>
   get_matches_count league_night_db carol = 2 \<and>
   get_matches_won_count league_night_db carol + get_matches_lost_count league_night_db carol
     \<le> get_matches_count league_night_db carol"
  using league_night_wf won_lost_le_count [OF league_night_wf, of carol]
  by (simp add: list_all_iff get_matches_won_count_def get_matches_lost_count_def
      get_matches_count_def match_examples)

text \<open>
  Claim C4, as the code has it. \<open>match_win_percentage\<close> fails with
  \<open>ZeroDivisionError\<close> when the participant has no match; with at least one match it
  returns the number of matches won divided by the number of matches, and this value
  lies between 0 and 1 when the winner of every stored match, when set, is one of the
  two participants of that match.
\<close>

theorem match_win_percentage_cases:
  "(get_matches_count db p = 0 \<longrightarrow> match_win_percentage db p = Inl ZeroDivisionError) \<and>
   (0 < get_matches_count db p \<longrightarrow>
      match_win_percentage db p =
        Inr (of_nat (length (get_matches_won db p)) / of_nat (length (get_matches db p)))) \<and>
   (0 < get_matches_count db p \<and> (\<forall>m \<in> set (match_table db). winner_is_participant m) \<longrightarrow>
      (\<exists>r. match_win_percentage db p = Inr r \<and> 0 \<le> r \<and> r \<le> 1))"
proof (intro conjI impI)
  assume "get_matches_count db p = 0"
  then show "match_win_percentage db p = Inl ZeroDivisionError"
    by (simp add: match_win_percentage_def)
next
  assume "0 < get_matches_count db p"
  then show "match_win_percentage db p =
      Inr (of_nat (length (get_matches_won db p)) / of_nat (length (get_matches db p)))"
    by (simp add: match_win_percentage_def get_matches_won_count_def get_matches_count_def
        get_matches_won_def get_matches_def)
next
  assume a: "0 < get_matches_count db p \<and>
    (\<forall>m \<in> set (match_table db). winner_is_participant m)"
  then have "\<forall>m \<in> set (match_table db). winner_id m = Some (participant_id p) \<longrightarrow>
      p1_id m = participant_id p \<or> p2_id m = participant_id p"
    by (auto simp: winner_is_participant_def)
  then have le: "get_matches_won_count db p \<le> get_matches_count db p"
    unfolding get_matches_won_count_def get_matches_count_def by (rule filter_le)
  let ?r = "(of_nat (get_matches_won_count db p) / of_nat (get_matches_count db p)) :: rat"
  have "match_win_percentage db p = Inr ?r"
    using a by (simp add: match_win_percentage_def)
  moreover have "0 \<le> ?r" by simp
  moreover have "?r \<le> 1" using a le by (simp add: divide_le_eq_1)
  ultimately show "\<exists>r. match_win_percentage db p = Inr r \<and> 0 \<le> r \<and> r \<le> 1"
    by blast
qed

theorem match_win_percentage_cases_witness:
  "get_matches_count league_night_db dave = 0 \<and>
   match_win_percentage league_night_db dave = Inl ZeroDivisionError \<and>
   0 < get_matches_count league_night_db alice \<and>
   list_all winner_is_participant (match_table league_night_db) \<and>
   match_win_percentage league_night_db alice = Inr (1 / 2)"
  using match_win_percentage_cases [of league_night_db dave]
    match_win_percentage_cases [of league_night_db alice]
  by (simp add: match_win_percentage_def get_matches_won_count_def get_matches_count_def
      get_matches_won_def get_matches_def winner_is_participant_def match_examples)

text \<open>
  Claim C4 as stated fails: for a participant without matches the failure is
  \<open>ZeroDivisionError\<close>, raised by the division, not \<open>NoMatchesError\<close>.
\<close>

theorem match_win_percentage_not_NoMatchesError:
  "get_matches league_night_db dave = [] \<and>
   match_win_percentage league_night_db dave \<noteq> Inl NoMatchesError \<and>
   match_win_percentage league_night_db dave = Inl ZeroDivisionError"
  by (simp add: match_win_percentage_def get_matches_won_count_def get_matches_count_def
      get_matches_def match_examples)

section \<open>Memberships and roles\<close>

lemmas membership_examples = guild_db_def empty_db_def guild_def erin_def Membership_init_def

lemma first_filter_append:
  "first (filter P rows) = None \<Longrightarrow> P r \<Longrightarrow> first (filter P (rows @ [r])) = Some r"
  by (induction rows) (auto simp: first_def split: if_splits)

lemma fold_max_ge: "(k::nat) \<le> fold max ks k"
  by (induction ks arbitrary: k) (auto intro: order_trans [OF max.cobounded2])

lemma fold_max_ge_member: "(x::nat) \<in> set ks \<Longrightarrow> x \<le> fold max ks k"
proof (induction ks arbitrary: k)
  case Nil
  then show ?case by simp
next
  case (Cons y ks)
  show ?case
  proof (cases "x = y")
    case True
    have "y \<le> max y k" by simp
    also have "max y k \<le> fold max ks (max y k)" by (rule fold_max_ge)
    finally show ?thesis using True by simp
  next
    case False
    with Cons.prems have "x \<in> set ks" by simp
    then show ?thesis using Cons.IH by simp
  qed
qed

lemma next_membership_id_fresh:
  "m \<in> set (membership_table db) \<Longrightarrow> membership_id m < next_membership_id db"
  unfolding next_membership_id_def
  using fold_max_ge_member [of "membership_id m" "map membership_id (membership_table db)" 0]
  by auto

text \<open>
  Claim C6, as the code has it. \<open>add_member\<close> always succeeds: it appends one
  membership for the user and the league with \<open>moderator\<close> and \<open>owner\<close> false and
  leaves the rows already there as they are. When the pair had no membership, the new
  row is the one a query for the pair finds; in every case the pair has one more
  membership than before, so a second call creates a duplicate.
\<close>

theorem add_member_always_appends:
  "\<exists>db' m. add_member db l u = Inr db' \<and>
     membership_table db' = membership_table db @ [m] \<and>
     membership_of l u m \<and> \<not> moderator m \<and> \<not> owner m \<and>
     (find_membership db l u = None \<longrightarrow> find_membership db' l u = Some m) \<and>
     length (filter (membership_of l u) (membership_table db')) =
       Suc (length (filter (membership_of l u) (membership_table db)))"
proof -
  let ?m = "Membership_init (next_membership_id db) u l False False"
  let ?db' = "db\<lparr> membership_table := membership_table db @ [?m] \<rparr>"
  have of_m: "membership_of l u ?m"
    by (simp add: membership_of_def Membership_init_def)
  have res: "add_member db l u = Inr ?db'"
    by (simp add: add_member_def Let_def)
  have tbl: "membership_table ?db' = membership_table db @ [?m]" by simp
  have no_mod: "\<not> moderator ?m" by (simp add: Membership_init_def)
  have no_own: "\<not> owner ?m" by (simp add: Membership_init_def)
  have found: "find_membership db l u = None \<longrightarrow> find_membership ?db' l u = Some ?m"
    using of_m by (simp add: find_membership_def first_filter_append del: filter_append)
  have count: "length (filter (membership_of l u) (membership_table ?db')) =
       Suc (length (filter (membership_of l u) (membership_table db)))"
    using of_m by simp
  show ?thesis
    by (rule exI [of _ ?db'], rule exI [of _ ?m])
      (intro conjI res tbl of_m no_mod no_own found count)
qed

theorem add_member_always_appends_witness:
  "find_membership empty_db guild erin = None \<and>
   (\<exists>db' m. add_member empty_db guild erin = Inr db' \<and>
      membership_table db' = membership_table empty_db @ [m] \<and>
      membership_of guild erin m \<and> \<not> moderator m \<and> \<not> owner m \<and>
      find_membership db' guild erin = Some m)"
proof -
  have h: "find_membership empty_db guild erin = None"
    by (simp add: find_membership_def first_def empty_db_def)
  from add_member_always_appends [of empty_db guild erin] h show ?thesis by blast
qed

text \<open>
  Claim C6 as stated fails: when the user already has a membership in the league,
  \<open>add_member\<close> does not fail with \<open>DuplicateMembershipError\<close>; it returns a database
  with two memberships for the pair.
\<close>

theorem add_member_permits_duplicate:
  "find_membership guild_db guild erin = Some (Membership_init 1 erin guild False False) \<and>
   add_member guild_db guild erin \<noteq> Inl DuplicateMembershipError \<and>
   add_member guild_db guild erin =
     Inr (guild_db\<lparr> membership_table :=
       [Membership_init 1 erin guild False False, Membership_init 2 erin guild False False] \<rparr>)"
  by (simp add: add_member_def find_membership_def first_def membership_of_def
      next_membership_id_def Let_def membership_examples)

lemma first_filter_holds: "first (filter P rows) = Some m \<Longrightarrow> P m"
  by (induction rows) (auto simp: first_def split: if_splits)

lemma first_filter_update_first:
  "first (filter P rows) = Some m \<Longrightarrow> P (f m) \<Longrightarrow>
     first (filter P (update_first P f rows)) = Some (f m)"
  by (induction rows) (auto simp: first_def split: if_splits)

lemma list_all_update_first:
  "list_all Q rows \<Longrightarrow> (\<And>r. P r \<Longrightarrow> Q (f r)) \<Longrightarrow> list_all Q (update_first P f rows)"
  by (induction rows) auto

lemma add_moderator_found:
  assumes "find_membership db l u = Some m"
  shows "\<exists>db'. add_moderator db l u = Inr db' \<and>
           find_membership db' l u = Some (m\<lparr> moderator := True, owner := False \<rparr>) \<and>
           (roles_exclusive db \<longrightarrow> roles_exclusive db')"
proof -
  let ?f = "\<lambda>m::membership. m\<lparr> moderator := True, owner := False \<rparr>"
  let ?db' = "db\<lparr> membership_table :=
      update_first (membership_of l u) ?f (membership_table db) \<rparr>"
  have m: "first (filter (membership_of l u) (membership_table db)) = Some m"
    using assms by (simp add: find_membership_def)
  then have "membership_of l u m" by (rule first_filter_holds)
  then have "membership_of l u (?f m)" by (simp add: membership_of_def)
  with m have "find_membership ?db' l u = Some (?f m)"
    by (simp add: find_membership_def first_filter_update_first)
  moreover have "add_moderator db l u = Inr ?db'"
    using assms by (simp add: add_moderator_def)
  moreover have "roles_exclusive db \<longrightarrow> roles_exclusive ?db'"
    by (auto simp: roles_exclusive_def intro: list_all_update_first)
  ultimately show ?thesis by blast
qed

lemma add_owner_found:
  assumes "find_membership db l u = Some m"
  shows "\<exists>db'. add_owner db l u = Inr db' \<and>
           find_membership db' l u = Some (m\<lparr> moderator := False, owner := True \<rparr>) \<and>
           (roles_exclusive db \<longrightarrow> roles_exclusive db')"
proof -
  let ?f = "\<lambda>m::membership. m\<lparr> moderator := False, owner := True \<rparr>"
  let ?db' = "db\<lparr> membership_table :=
      update_first (membership_of l u) ?f (membership_table db) \<rparr>"
  have m: "first (filter (membership_of l u) (membership_table db)) = Some m"
    using assms by (simp add: find_membership_def)
  then have "membership_of l u m" by (rule first_filter_holds)
  then have "membership_of l u (?f m)" by (simp add: membership_of_def)
  with m have "find_membership ?db' l u = Some (?f m)"
    by (simp add: find_membership_def first_filter_update_first)
  moreover have "add_owner db l u = Inr ?db'"
    using assms by (simp add: add_owner_def)
  moreover have "roles_exclusive db \<longrightarrow> roles_exclusive ?db'"
    by (auto simp: roles_exclusive_def intro: list_all_update_first)
  ultimately show ?thesis by blast
qed

text \<open>
  Claim C9. For a user holding a membership in the league, \<open>add_moderator\<close> succeeds
  and leaves that membership with \<open>moderator\<close> true and \<open>owner\<close> false, \<open>add_owner\<close>
  succeeds and leaves it with \<open>owner\<close> true and \<open>moderator\<close> false, and when no
  membership had both flags set before the call, none has both after it.
\<close>

theorem role_change_exclusive:
  assumes "find_membership db l u = Some m"
  shows "(\<exists>db'. add_moderator db l u = Inr db' \<and>
            find_membership db' l u = Some (m\<lparr> moderator := True, owner := False \<rparr>) \<and>
            (roles_exclusive db \<longrightarrow> roles_exclusive db')) \<and>
         (\<exists>db'. add_owner db l u = Inr db' \<and>
            find_membership db' l u = Some (m\<lparr> moderator := False, owner := True \<rparr>) \<and>
            (roles_exclusive db \<longrightarrow> roles_exclusive db'))"
  using add_moderator_found [OF assms] add_owner_found [OF assms] by blast

theorem role_change_exclusive_witness:
  "find_membership guild_owned_db guild erin = Some (Membership_init 1 erin guild False True) \<and>
   roles_exclusive guild_owned_db \<and>
   (\<exists>db'. add_moderator guild_owned_db guild erin = Inr db' \<and>
      find_membership db' guild erin = Some (Membership_init 1 erin guild True False) \<and>
      roles_exclusive db')"
proof -
  have h: "find_membership guild_owned_db guild erin =
      Some (Membership_init 1 erin guild False True)"
    by (simp add: find_membership_def first_def membership_of_def guild_owned_db_def
        membership_examples)
  have e: "roles_exclusive guild_owned_db"
    by (simp add: roles_exclusive_def guild_owned_db_def Membership_init_def)
  have "(Membership_init 1 erin guild False True)\<lparr> moderator := True, owner := False \<rparr> =
      Membership_init 1 erin guild True False"
    by (simp add: Membership_init_def)
  with role_change_exclusive [OF h] h e show ?thesis by auto
qed

section \<open>The anonymous actor\<close>

text \<open>
  Claim C10. For the anonymous actor \<open>is_admin\<close> returns false, \<open>is_anonymous\<close> returns
  true and \<open>is_member\<close> returns false, for every league and every database.
\<close>

theorem anonymous_user_capabilities:
  "is_admin AnonymousUser = Some False \<and> is_anonymous AnonymousUser \<and>
   \<not> is_member db AnonymousUser l"
  by simp

end
